theory Spec2Isabelle
  imports Main
begin

section \<open>The node model consumed by the renderer\<close>

text \<open>
  The renderer of \<^verbatim>\<open>src/renderer/renderer.go\<close> walks a goldmark syntax tree. The tree
  library is a dependency of the repository; the renderer uses of it: the kind tag of a
  node, the first-child and next-sibling links, the segment and the soft-line-break flag
  of a text node, the line segments of a fenced code block, and the level of a heading
  and of an emphasis. Go strings and byte slices are both modelled as \<open>string\<close>, a list
  of 8-bit characters.
\<close>

datatype NodeKind =
    KindDocument | KindTextBlock | KindParagraph | KindHeading | KindThematicBreak
  | KindCodeBlock | KindFencedCodeBlock | KindBlockquote | KindList | KindListItem
  | KindHTMLBlock | KindText | KindString | KindCodeSpan | KindEmphasis | KindLink
  | KindImage | KindAutoLink | KindRawHTML
  | KindExtension string
    \<comment> \<open>a kind registered by a parser extension (the parser of this repository enables
        the GFM extension: tables, strikethrough, task check boxes)\<close>

record Segment =
  Start :: int
  Stop :: int

text \<open>
  One constructor for each concrete node type of the tree library, so that the kind of
  a node is a function of its type, as the method \<^verbatim>\<open>Kind()\<close> is, and the type
  assertions \<^verbatim>\<open>n.(*ast.Text)\<close>, \<^verbatim>\<open>n.(*ast.Heading)\<close> of the renderer cannot fail.
\<close>

datatype NodeData =
    AstDocument | AstTextBlock | AstParagraph
  | AstHeading int                    \<comment> \<open>field \<^verbatim>\<open>Level\<close>\<close>
  | AstThematicBreak | AstCodeBlock
  | AstFencedCodeBlock "Segment list" \<comment> \<open>\<^verbatim>\<open>Lines()\<close>\<close>
  | AstBlockquote | AstList | AstListItem | AstHTMLBlock
  | AstText Segment bool              \<comment> \<open>field \<^verbatim>\<open>Segment\<close>, \<^verbatim>\<open>SoftLineBreak()\<close>\<close>
  | AstString | AstCodeSpan
  | AstEmphasis int                   \<comment> \<open>field \<^verbatim>\<open>Level\<close>\<close>
  | AstLink | AstImage | AstAutoLink | AstRawHTML
  | AstExtension string

fun Kind :: "NodeData \<Rightarrow> NodeKind" where
  "Kind AstDocument = KindDocument"
| "Kind AstTextBlock = KindTextBlock"
| "Kind AstParagraph = KindParagraph"
| "Kind (AstHeading _) = KindHeading"
| "Kind AstThematicBreak = KindThematicBreak"
| "Kind AstCodeBlock = KindCodeBlock"
| "Kind (AstFencedCodeBlock _) = KindFencedCodeBlock"
| "Kind AstBlockquote = KindBlockquote"
| "Kind AstList = KindList"
| "Kind AstListItem = KindListItem"
| "Kind AstHTMLBlock = KindHTMLBlock"
| "Kind (AstText _ _) = KindText"
| "Kind AstString = KindString"
| "Kind AstCodeSpan = KindCodeSpan"
| "Kind (AstEmphasis _) = KindEmphasis"
| "Kind AstLink = KindLink"
| "Kind AstImage = KindImage"
| "Kind AstAutoLink = KindAutoLink"
| "Kind AstRawHTML = KindRawHTML"
| "Kind (AstExtension name) = KindExtension name"

text \<open>
  A node with its two links: \<^verbatim>\<open>FirstChild()\<close> and \<^verbatim>\<open>NextSibling()\<close>, each of
  them nil or a node. \<^verbatim>\<open>HasChildren()\<close> is: the first child is not nil.
\<close>

datatype Node = Node (Data: NodeData) (FirstChild: "Node option") (NextSibling: "Node option")

section \<open>Errors and runtime panics\<close>

datatype error =
    MissingField string
    \<comment> \<open>\<^verbatim>\<open>rendering error: page does not contain "<field>" in metadata\<close>\<close>
  | BadPagePath
    \<comment> \<open>\<^verbatim>\<open>rendering error: page path doesn't being with a "/" (forward slash)\<close>\<close>
  | UnregisteredKind NodeKind
    \<comment> \<open>\<^verbatim>\<open>rendering error: node kind (<kind>) doesn't have a template assigned to it\<close>\<close>
  | TemplateReadError string string
    \<comment> \<open>\<^verbatim>\<open>rendering error: while reading template <path>: <os error>\<close>\<close>
  | TemplateParseError string
  | TemplateExecError string
  | OSError string
    \<comment> \<open>the error of \<^verbatim>\<open>os.MkdirAll\<close> or \<^verbatim>\<open>ioutil.WriteFile\<close>, returned as it is\<close>
  | SliceBoundsPanic
    \<comment> \<open>not an error value of the program: the Go runtime's panic on a slice
        expression whose bounds are out of range\<close>

section \<open>Byte ranges\<close>

text \<open>
  Modelled from the spec: the method \<^verbatim>\<open>Segment.Value\<close> of the tree library, which the
  spec describes as slicing the referenced byte range from the source bytes. It is the Go
  slice expression \<^verbatim>\<open>buffer[Start:Stop]\<close>, which the runtime checks: when the bounds do
  not satisfy \<open>0 \<le> Start \<le> Stop \<le> length\<close> there is no byte range and the program
  panics (the buffer is taken to be filled to its capacity, as the parser's reader hands
  it over).
\<close>

definition Segment_Value :: "Segment \<Rightarrow> string \<Rightarrow> error + string" where
  "Segment_Value seg buffer =
     (if 0 \<le> Start seg \<and> Start seg \<le> Stop seg \<and> Stop seg \<le> int (length buffer)
      then Inr (take (nat (Stop seg) - nat (Start seg)) (drop (nat (Start seg)) buffer))
      else Inl SliceBoundsPanic)"

definition newline :: string where
  "newline = [CHR 0x0A]"

section \<open>The content extractor\<close>

text \<open>
  The loop of \<^verbatim>\<open>generateTemplateDataContent\<close> over the lines of a fenced code block:
  \<^verbatim>\<open>for i := 0; i < l; i++ { content = content + Lines().At(i).Value(bytes) }\<close>.
  The index \<open>i\<close> stays below the length \<open>l\<close>, so \<^verbatim>\<open>At(i)\<close> is in range.
\<close>

function fencedLinesLoop :: "Segment list \<Rightarrow> string \<Rightarrow> nat \<Rightarrow> string \<Rightarrow> error + string" where
  "fencedLinesLoop lines buffer i content =
     (if i < length lines then
        (case Segment_Value (lines ! i) buffer of
           Inl e \<Rightarrow> Inl e
         | Inr line \<Rightarrow> fencedLinesLoop lines buffer (Suc i) (content @ line))
      else Inr content)"
  by pat_completeness auto
termination
  by (relation "measure (\<lambda>(lines, buffer, i, content). length lines - i)") auto

declare fencedLinesLoop.simps [simp del]

fun generateTemplateDataContent :: "NodeData \<Rightarrow> string \<Rightarrow> error + string" where
  "generateTemplateDataContent (AstText segment softLineBreak) inputFileBytes =
     (case Segment_Value segment inputFileBytes of
        Inl e \<Rightarrow> Inl e
      | Inr content \<Rightarrow>
          if softLineBreak then Inr (content @ newline)
          else Inr (content @ ''<br/>'' @ newline))"
| "generateTemplateDataContent (AstFencedCodeBlock lines) inputFileBytes =
     fencedLinesLoop lines inputFileBytes 0 ''''"
| "generateTemplateDataContent _ inputFileBytes = Inr ''''"

section \<open>The configuration extractor\<close>

datatype ConfigValue = CInt int | CString string

fun generateTemplateDataConfig :: "NodeData \<Rightarrow> (string \<rightharpoonup> ConfigValue)" where
  "generateTemplateDataConfig (AstHeading level) = Map.empty(''level'' \<mapsto> CInt level)"
| "generateTemplateDataConfig (AstEmphasis level) =
     (if level = 1 then Map.empty(''tagType'' \<mapsto> CString ''em'')
      else Map.empty(''tagType'' \<mapsto> CString ''strong''))"
| "generateTemplateDataConfig _ = Map.empty"

section \<open>Paths and string formatting of the Go library\<close>

text \<open>
  \<^verbatim>\<open>path.Clean\<close> and \<^verbatim>\<open>path.Join\<close> of the Go standard library, on the slash-separated
  elements of a path: empty and \<open>.\<close> elements are dropped, a \<open>..\<close> element removes the
  element before it, is dropped at the root of a rooted path and is kept at the front of
  a relative one; the empty result is \<open>.\<close>.
\<close>

fun splitSlash :: "string \<Rightarrow> string list" where
  "splitSlash [] = [[]]"
| "splitSlash (c # cs) =
     (if c = CHR ''/'' then [] # splitSlash cs
      else (case splitSlash cs of [] \<Rightarrow> [[c]] | w # ws \<Rightarrow> (c # w) # ws))"

fun joinSlash :: "string list \<Rightarrow> string" where
  "joinSlash [] = []"
| "joinSlash [e] = e"
| "joinSlash (e # es) = e @ ''/'' @ joinSlash es"

definition cleanStep :: "bool \<Rightarrow> string list \<Rightarrow> string \<Rightarrow> string list" where
  "cleanStep rooted out elem =
     (if elem = [] \<or> elem = ''.'' then out
      else if elem = ''..'' then
        (if out \<noteq> [] \<and> last out \<noteq> ''..'' then butlast out
         else if rooted then out
         else out @ [''..''])
      else out @ [elem])"

definition path_Clean :: "string \<Rightarrow> string" where
  "path_Clean path =
     (if path = [] then ''.''
      else
        let rooted = (hd path = CHR ''/'');
            out = foldl (cleanStep rooted) [] (splitSlash path)
        in if rooted then ''/'' @ joinSlash out
           else if out = [] then ''.''
           else joinSlash out)"

definition path_Join :: "string list \<Rightarrow> string" where
  "path_Join elem =
     (case dropWhile (\<lambda>e. e = []) elem of
        [] \<Rightarrow> []
      | e # es \<Rightarrow> path_Clean (joinSlash (e # es)))"

definition HasPrefix :: "string \<Rightarrow> string \<Rightarrow> bool" where
  "HasPrefix s pre = (length pre \<le> length s \<and> take (length pre) s = pre)"

text \<open>
  The values of the front-matter mapping (\<^verbatim>\<open>map[string]interface{}\<close>): the scalars of
  the metadata parser. Floating-point numbers, dates and nested collections are left out.
\<close>

datatype MetaValue = VString string | VInt int | VBool bool | VNil

function showNat :: "nat \<Rightarrow> string" where
  "showNat n =
     (if n < 10 then [''0123456789'' ! n]
      else showNat (n div 10) @ [''0123456789'' ! (n mod 10)])"
  by pat_completeness auto
termination
  by (relation "measure id") auto

declare showNat.simps [simp del]

definition showInt :: "int \<Rightarrow> string" where
  "showInt i = (if i < 0 then ''-'' @ showNat (nat (- i)) else showNat (nat i))"

text \<open>
  \<^verbatim>\<open>fmt.Sprintf("%s", v)\<close>: a string is copied; for a value of another type the verb
  \<^verbatim>\<open>%s\<close> is a bad verb, printed as \<^verbatim>\<open>%!s(type=value)\<close>.
\<close>

fun Sprintf_s :: "MetaValue \<Rightarrow> string" where
  "Sprintf_s (VString s) = s"
| "Sprintf_s (VInt i) = ''%!s(int='' @ showInt i @ '')''"
| "Sprintf_s (VBool b) = (if b then ''%!s(bool=true)'' else ''%!s(bool=false)'')"
| "Sprintf_s VNil = ''%!s(<nil>)''"

section \<open>The template registry\<close>

definition DocumentTemplatePath :: string where
  "DocumentTemplatePath = ''../templates/block/document.tmpl.html''"
definition TextBlockTemplatePath :: string where
  "TextBlockTemplatePath = ''../templates/block/text-block.tmpl.html''"
definition ParagraphTemplatePath :: string where
  "ParagraphTemplatePath = ''../templates/block/paragraph.tmpl.html''"
definition HeadingTemplatePath :: string where
  "HeadingTemplatePath = ''../templates/block/heading.tmpl.html''"
definition ThematicBreakTemplatePath :: string where
  "ThematicBreakTemplatePath = ''../templates/block/thematic-break.tmpl.html''"
definition CodeBlockTemplatePath :: string where
  "CodeBlockTemplatePath = ''../templates/block/code-block.tmpl.html''"
definition FencedCodeBlockTemplatePath :: string where
  "FencedCodeBlockTemplatePath = ''../templates/block/fenced-code-block.tmpl.html''"
definition BlockquoteTemplatePath :: string where
  "BlockquoteTemplatePath = ''../templates/block/blockquote.tmpl.html''"
definition ListTemplatePath :: string where
  "ListTemplatePath = ''../templates/block/list.tmpl.html''"
definition ListItemTemplatePath :: string where
  "ListItemTemplatePath = ''../templates/block/list-item.tmpl.html''"
definition HTMLBlockTemplatePath :: string where
  "HTMLBlockTemplatePath = ''../templates/block/html-block.tmpl.html''"
definition TextTemplatePath :: string where
  "TextTemplatePath = ''../templates/inline/text.tmpl.html''"
definition StringTemplatePath :: string where
  "StringTemplatePath = ''../templates/inline/string.tmpl.html''"
definition CodeSpanTemplatePath :: string where
  "CodeSpanTemplatePath = ''../templates/inline/code-span.tmpl.html''"
definition EmphasisTemplatePath :: string where
  "EmphasisTemplatePath = ''../templates/inline/emphasis.tmpl.html''"
definition LinkTemplatePath :: string where
  "LinkTemplatePath = ''../templates/inline/link.tmpl.html''"
definition ImageTemplatePath :: string where
  "ImageTemplatePath = ''../templates/inline/image.tmpl.html''"
definition AutoLinkTemplatePath :: string where
  "AutoLinkTemplatePath = ''../templates/inline/auto-link.tmpl.html''"
definition RawHTMLTemplatePath :: string where
  "RawHTMLTemplatePath = ''../templates/inline/raw-html.tmpl.html''"

record PageMeta =
  Title :: string
  Description :: string
  Slug :: string
  Path :: string

record TemplateData =
  Meta :: PageMeta
  Config :: "string \<rightharpoonup> ConfigValue"
  Content :: string
  Children :: string

text \<open>
  What the renderer asks of the world outside the program: the directory of its own
  source file (\<^verbatim>\<open>runtime.Caller\<close>, \<open>./\<close> when unknown), the file system and the
  template engine (\<^verbatim>\<open>text/template\<close>), with \<open>'t\<close> the type of parsed templates. An
  operating-system or template error is the text of its message.
\<close>

record 't Env =
  rendererPath :: string
  ReadFile :: "string \<Rightarrow> string + string"
  Parse :: "string \<Rightarrow> string + 't"
  Execute :: "'t \<Rightarrow> TemplateData \<Rightarrow> string + string"
  StatIsNotExist :: "string \<Rightarrow> bool"
  MkdirAll :: "string \<Rightarrow> string option"
  WriteFile :: "string \<Rightarrow> string \<Rightarrow> string option"

text \<open>The calls made to the file system, in the order they are made.\<close>

datatype Event =
    EvReadFile string
  | EvStat string
  | EvMkdirAll string           \<comment> \<open>with mode \<^verbatim>\<open>os.ModeDir\<close>\<close>
  | EvWriteFile string string   \<comment> \<open>path and content, with mode \<^verbatim>\<open>os.ModeAppend\<close>\<close>

text \<open>
  The global \<^verbatim>\<open>KindTemplateMap\<close> is state: every function that reads or fills it
  takes its value and returns the new one. It is kept as an association list, so that
  \<^verbatim>\<open>len(KindTemplateMap) == 0\<close> is a test the model can run.
\<close>

type_synonym Registry = "(NodeKind \<times> string) list"

definition InitKindTemplateMap :: "'t Env \<Rightarrow> Registry" where
  "InitKindTemplateMap E =
     [(KindDocument, path_Join [rendererPath E, DocumentTemplatePath]),
      (KindTextBlock, path_Join [rendererPath E, TextBlockTemplatePath]),
      (KindParagraph, path_Join [rendererPath E, ParagraphTemplatePath]),
      (KindHeading, path_Join [rendererPath E, HeadingTemplatePath]),
      (KindThematicBreak, path_Join [rendererPath E, ThematicBreakTemplatePath]),
      (KindCodeBlock, path_Join [rendererPath E, CodeBlockTemplatePath]),
      (KindFencedCodeBlock, path_Join [rendererPath E, FencedCodeBlockTemplatePath]),
      (KindBlockquote, path_Join [rendererPath E, BlockquoteTemplatePath]),
      (KindList, path_Join [rendererPath E, ListTemplatePath]),
      (KindListItem, path_Join [rendererPath E, ListItemTemplatePath]),
      (KindHTMLBlock, path_Join [rendererPath E, HTMLBlockTemplatePath]),
      (KindText, path_Join [rendererPath E, TextTemplatePath]),
      (KindString, path_Join [rendererPath E, StringTemplatePath]),
      (KindCodeSpan, path_Join [rendererPath E, CodeSpanTemplatePath]),
      (KindEmphasis, path_Join [rendererPath E, EmphasisTemplatePath]),
      (KindLink, path_Join [rendererPath E, LinkTemplatePath]),
      (KindImage, path_Join [rendererPath E, ImageTemplatePath]),
      (KindAutoLink, path_Join [rendererPath E, AutoLinkTemplatePath]),
      (KindRawHTML, path_Join [rendererPath E, RawHTMLTemplatePath])]"

text \<open>
  A Go function returning \<^verbatim>\<open>(string, error)\<close> returns the pair \<open>(string, error option)\<close>,
  so that what the string is when the error is set is part of the model.
\<close>

definition getTemplateContent ::
  "'t Env \<Rightarrow> NodeKind \<Rightarrow> Registry \<Rightarrow> (string \<times> error option) \<times> Registry \<times> Event list" where
  "getTemplateContent E nodeKind ktm =
     (let ktm' = (if length ktm = 0 then InitKindTemplateMap E else ktm) in
      case map_of ktm' nodeKind of
        None \<Rightarrow> (('''', Some (UnregisteredKind nodeKind)), ktm', [])
      | Some templatePath \<Rightarrow>
          (case ReadFile E templatePath of
             Inl err \<Rightarrow>
               (('''', Some (TemplateReadError templatePath err)), ktm', [EvReadFile templatePath])
           | Inr templateContent \<Rightarrow>
               ((templateContent, None), ktm', [EvReadFile templatePath])))"

definition renderTemplateToString :: "'t Env \<Rightarrow> string \<Rightarrow> TemplateData \<Rightarrow> string \<times> error option" where
  "renderTemplateToString E templateContent templateData =
     (case Parse E templateContent of
        Inl err \<Rightarrow> ('''', Some (TemplateParseError err))
      | Inr t \<Rightarrow>
          (case Execute E t templateData of
             Inl err \<Rightarrow> ('''', Some (TemplateExecError err))
           | Inr out \<Rightarrow> (out, None)))"

section \<open>The recursive renderer\<close>

text \<open>
  \<^verbatim>\<open>renderAstNode\<close>: the first child (with its sibling chain) first, then the node's
  own template, then the next sibling. The results \<^verbatim>\<open>output\<close> and \<^verbatim>\<open>err\<close> are named
  in the source: a bare \<^verbatim>\<open>return\<close> returns what they hold at that point. A panic of the
  content extractor ends the program; the model returns it in the place of the error.
\<close>

fun renderAstNode ::
  "'t Env \<Rightarrow> PageMeta \<Rightarrow> Node \<Rightarrow> string \<Rightarrow> Registry \<Rightarrow> (string \<times> error option) \<times> Registry \<times> Event list" where
  "renderAstNode E pageMetadata (Node d fc ns) inputFileBytes ktm =
     (case (case fc of
              None \<Rightarrow> (('''', None), ktm, [])
            | Some c \<Rightarrow> renderAstNode E pageMetadata c inputFileBytes ktm) of
        ((firstChildContent, Some err), ktm1, ev1) \<Rightarrow> (('''', Some err), ktm1, ev1)
      | ((firstChildContent, None), ktm1, ev1) \<Rightarrow>
          (case getTemplateContent E (Kind d) ktm1 of
             ((templateContent, Some err), ktm2, ev2) \<Rightarrow> (('''', Some err), ktm2, ev1 @ ev2)
           | ((templateContent, None), ktm2, ev2) \<Rightarrow>
               (case generateTemplateDataContent d inputFileBytes of
                  Inl panic \<Rightarrow> (('''', Some panic), ktm2, ev1 @ ev2)
                | Inr content \<Rightarrow>
                    (case renderTemplateToString E templateContent
                            \<lparr>Meta = pageMetadata, Config = generateTemplateDataConfig d,
                             Content = content, Children = firstChildContent\<rparr> of
                       (output, Some err) \<Rightarrow> ((output, Some err), ktm2, ev1 @ ev2)
                     | (output, None) \<Rightarrow>
                         (case ns of
                            None \<Rightarrow> ((output, None), ktm2, ev1 @ ev2)
                          | Some s \<Rightarrow>
                              (case renderAstNode E pageMetadata s inputFileBytes ktm2 of
                                 ((nextSiblingContent, Some err), ktm3, ev3) \<Rightarrow>
                                   (('''', Some err), ktm3, ev1 @ ev2 @ ev3)
                               | ((nextSiblingContent, None), ktm3, ev3) \<Rightarrow>
                                   ((output @ newline @ nextSiblingContent, None), ktm3,
                                    ev1 @ ev2 @ ev3)))))))"

section \<open>The page-assembly entry point\<close>

text \<open>
  \<^verbatim>\<open>RenderAst\<close>, lines 89 to 118: the four metadata lookups, each followed by its
  \<^verbatim>\<open>Sprintf\<close>, the test of the path's first character and the \<^verbatim>\<open>PageMeta\<close> literal.
  The result is the error returned, or the page metadata and the page path.
\<close>

definition RenderAst_validate :: "(string \<rightharpoonup> MetaValue) \<Rightarrow> error + (PageMeta \<times> string)" where
  "RenderAst_validate pageMetadata =
     (case pageMetadata ''title'' of
        None \<Rightarrow> Inl (MissingField ''title'')
      | Some pageTitleInt \<Rightarrow>
     (case pageMetadata ''description'' of
        None \<Rightarrow> Inl (MissingField ''description'')
      | Some pageDescriptionInt \<Rightarrow>
     (case pageMetadata ''slug'' of
        None \<Rightarrow> Inl (MissingField ''slug'')
      | Some pageSlugInt \<Rightarrow>
     (case pageMetadata ''path'' of
        None \<Rightarrow> Inl (MissingField ''path'')
      | Some pagePathInt \<Rightarrow>
          (let pagePath = Sprintf_s pagePathInt in
           if \<not> HasPrefix pagePath ''/'' then Inl BadPagePath
           else Inr (\<lparr>Title = Sprintf_s pageTitleInt,
                      Description = Sprintf_s pageDescriptionInt,
                      Slug = Sprintf_s pageSlugInt,
                      Path = DocumentTemplatePath\<rparr>, pagePath))))))"

text \<open>
  \<^verbatim>\<open>RenderAst\<close>, lines 124 to 135: the directory is made when \<^verbatim>\<open>os.Stat\<close> reports that
  it does not exist, then the file is written.
\<close>

definition RenderAst_persist :: "'t Env \<Rightarrow> string \<Rightarrow> string \<Rightarrow> error option \<times> Event list" where
  "RenderAst_persist E pagePath output =
     (let dir = path_Join [''build'', pagePath];
          file = path_Join [''build'', pagePath, ''/index.html''] in
      if StatIsNotExist E dir then
        (case MkdirAll E dir of
           Some err \<Rightarrow> (Some (OSError err), [EvStat dir, EvMkdirAll dir])
         | None \<Rightarrow>
             (case WriteFile E file output of
                Some err \<Rightarrow> (Some (OSError err), [EvStat dir, EvMkdirAll dir, EvWriteFile file output])
              | None \<Rightarrow> (None, [EvStat dir, EvMkdirAll dir, EvWriteFile file output])))
      else
        (case WriteFile E file output of
           Some err \<Rightarrow> (Some (OSError err), [EvStat dir, EvWriteFile file output])
         | None \<Rightarrow> (None, [EvStat dir, EvWriteFile file output])))"

definition RenderAst ::
  "'t Env \<Rightarrow> (string \<rightharpoonup> MetaValue) \<Rightarrow> Node \<Rightarrow> string \<Rightarrow> Registry \<Rightarrow> error option \<times> Registry \<times> Event list" where
  "RenderAst E pageMetadata documentNode inputFileBytes ktm =
     (case RenderAst_validate pageMetadata of
        Inl err \<Rightarrow> (Some err, ktm, [])
      | Inr (pageMeta, pagePath) \<Rightarrow>
          (case renderAstNode E pageMeta documentNode inputFileBytes ktm of
             ((output, Some err), ktm1, ev1) \<Rightarrow> (Some err, ktm1, ev1)
           | ((output, None), ktm1, ev1) \<Rightarrow>
               (case RenderAst_persist E pagePath output of
                  (err, ev2) \<Rightarrow> (err, ktm1, ev1 @ ev2))))"

section \<open>Notions of the specification\<close>

text \<open>A segment that references a byte range of the buffer, and the bytes of that range.\<close>

definition in_buffer :: "Segment \<Rightarrow> string \<Rightarrow> bool" where
  "in_buffer seg buffer =
     (0 \<le> Start seg \<and> Start seg \<le> Stop seg \<and> Stop seg \<le> int (length buffer))"

definition byte_range :: "Segment \<Rightarrow> string \<Rightarrow> string" where
  "byte_range seg buffer = map (\<lambda>i. buffer ! i) [nat (Start seg)..<nat (Stop seg)]"

fun segments_of :: "NodeData \<Rightarrow> Segment list" where
  "segments_of (AstText segment softLineBreak) = [segment]"
| "segments_of (AstFencedCodeBlock lines) = lines"
| "segments_of _ = []"

text \<open>The registry that a lookup uses: the global one, filled first when it is empty.\<close>

definition registryInUse :: "'t Env \<Rightarrow> Registry \<Rightarrow> Registry" where
  "registryInUse E ktm = (if ktm = [] then InitKindTemplateMap E else ktm)"

text \<open>
  The sibling chain that starts at a node.
\<close>

fun siblings :: "Node \<Rightarrow> Node list" where
  "siblings (Node d fc ns) = Node d fc ns # (case ns of None \<Rightarrow> [] | Some s \<Rightarrow> siblings s)"

text \<open>
  The step of \<^verbatim>\<open>renderAstNode\<close> for the node itself (lines 146 to 159), given the
  rendered children: the template is resolved, the content and the configuration are
  extracted and the template is executed.
\<close>

definition renderSelf ::
  "'t Env \<Rightarrow> PageMeta \<Rightarrow> NodeData \<Rightarrow> string \<Rightarrow> string \<Rightarrow> Registry \<Rightarrow>
   (string \<times> error option) \<times> Registry \<times> Event list" where
  "renderSelf E pageMetadata d firstChildContent inputFileBytes ktm =
     (case getTemplateContent E (Kind d) ktm of
        ((templateContent, Some err), ktm2, ev2) \<Rightarrow> (('''', Some err), ktm2, ev2)
      | ((templateContent, None), ktm2, ev2) \<Rightarrow>
          (case generateTemplateDataContent d inputFileBytes of
             Inl panic \<Rightarrow> (('''', Some panic), ktm2, ev2)
           | Inr content \<Rightarrow>
               (renderTemplateToString E templateContent
                   \<lparr>Meta = pageMetadata, Config = generateTemplateDataConfig d,
                    Content = content, Children = firstChildContent\<rparr>, ktm2, ev2)))"

text \<open>
  The fragment of a node, as the specification builds it: the rendering of the chain of
  its children is obtained first (empty when there are none), then the node's template
  is instantiated with the page metadata, the node's configuration, its content and the
  children's output. A failure among the children is the failure of the node.
\<close>

definition ownFragment ::
  "'t Env \<Rightarrow> PageMeta \<Rightarrow> Node \<Rightarrow> string \<Rightarrow> Registry \<Rightarrow> string \<times> error option" where
  "ownFragment E pageMetadata n inputFileBytes ktm =
     (case FirstChild n of
        None \<Rightarrow> fst (renderSelf E pageMetadata (Data n) '''' inputFileBytes ktm)
      | Some c \<Rightarrow>
          (case fst (renderAstNode E pageMetadata c inputFileBytes ktm) of
             (childOutput, Some err) \<Rightarrow> ('''', Some err)
           | (childOutput, None) \<Rightarrow>
               fst (renderSelf E pageMetadata (Data n) childOutput inputFileBytes ktm)))"

fun joinNewline :: "string list \<Rightarrow> string" where
  "joinNewline [] = []"
| "joinNewline [f] = f"
| "joinNewline (f # fs) = f @ newline @ joinNewline fs"





definition requiredFields :: "string list" where
  "requiredFields = [''title'', ''description'', ''slug'', ''path'']"

definition isValidationError :: "error \<Rightarrow> bool" where
  "isValidationError e = (e = BadPagePath \<or> (\<exists>f \<in> set requiredFields. e = MissingField f))"

definition writes :: "Event list \<Rightarrow> (string \<times> string) list" where
  "writes evs = concat (map (\<lambda>ev. case ev of EvWriteFile p c \<Rightarrow> [(p, c)] | _ \<Rightarrow> []) evs)"

section \<open>A small environment and page for evaluation\<close>

text \<open>
  Every template file is readable and holds the text \<open>T\<close>; a parsed template is its
  text; executing it prints the content and the rendered children between angle
  brackets. No directory exists yet and every directory and file can be made.
\<close>

definition demoEnv :: "string Env" where
  "demoEnv =
     \<lparr>rendererPath = ''/r'',
      ReadFile = (\<lambda>p. Inr ''T''),
      Parse = (\<lambda>c. Inr c),
      Execute = (\<lambda>t data. Inr (''<'' @ Content data @ Children data @ ''>'')),
      StatIsNotExist = (\<lambda>p. True),
      MkdirAll = (\<lambda>p. None),
      WriteFile = (\<lambda>p c. None)\<rparr>"


definition demoMeta :: "string \<rightharpoonup> MetaValue" where
  "demoMeta =
     [''title'' \<mapsto> VString ''About'', ''description'' \<mapsto> VInt 7,
      ''slug'' \<mapsto> VBool True, ''path'' \<mapsto> VString ''/about'']"

definition demoPageMeta :: PageMeta where
  "demoPageMeta =
     \<lparr>Title = ''About'', Description = ''%!s(int=7)'', Slug = ''%!s(bool=true)'',
      Path = ''../templates/block/document.tmpl.html''\<rparr>"

text \<open>
  A chain of three siblings over the source \<open>abc\<close>: a heading, an emphasis with a text
  child, a thematic break. A document with two thematic breaks as children. Then a
  paragraph followed by a table, and a strikethrough followed by a table: the kinds of
  the GFM extension have no template.
\<close>

definition demoChain :: Node where
  "demoChain =
     Node (AstHeading 1) None
       (Some (Node (AstEmphasis 2) (Some (Node (AstText \<lparr>Start = 1, Stop = 3\<rparr> True) None None))
          (Some (Node AstThematicBreak None None))))"

definition demoDocument :: Node where
  "demoDocument =
     Node AstDocument
       (Some (Node AstThematicBreak None (Some (Node AstThematicBreak None None)))) None"



section \<open>The content extractor: proofs\<close>

lemma take_drop_nth_upt:
  "a \<le> b \<Longrightarrow> b \<le> length xs \<Longrightarrow> take (b - a) (drop a xs) = map (\<lambda>i. xs ! i) [a..<b]"
  by (rule nth_equalityI) auto

lemma Segment_Value_in_buffer:
  "in_buffer seg buffer \<Longrightarrow> Segment_Value seg buffer = Inr (byte_range seg buffer)"
  unfolding in_buffer_def Segment_Value_def byte_range_def
  by (simp add: take_drop_nth_upt nat_le_iff nat_mono)

lemma fencedLinesLoop_in_buffer:
  "\<forall>seg \<in> set lines. in_buffer seg buffer \<Longrightarrow> i \<le> length lines \<Longrightarrow>
   fencedLinesLoop lines buffer i content =
     Inr (content @ concat (map (\<lambda>seg. byte_range seg buffer) (drop i lines)))"
proof (induction lines buffer i content rule: fencedLinesLoop.induct)
  case (1 lines buffer i content)
  show ?case
  proof (cases "i < length lines")
    case True
    then have v: "Segment_Value (lines ! i) buffer = Inr (byte_range (lines ! i) buffer)"
      using "1.prems"(1) by (simp add: Segment_Value_in_buffer)
    have d: "drop i lines = lines ! i # drop (Suc i) lines"
      using True by (simp add: Cons_nth_drop_Suc)
    have "fencedLinesLoop lines buffer i content =
          fencedLinesLoop lines buffer (Suc i) (content @ byte_range (lines ! i) buffer)"
      using True v by (subst fencedLinesLoop.simps) simp
    also have "\<dots> = Inr ((content @ byte_range (lines ! i) buffer) @
        concat (map (\<lambda>seg. byte_range seg buffer) (drop (Suc i) lines)))"
      using "1.IH" [OF True v] "1.prems"(1) True by simp
    finally show ?thesis by (simp add: d)
  next
    case False
    then show ?thesis using "1.prems"(2)
      by (subst fencedLinesLoop.simps) simp
  qed
qed

lemma content_in_buffer:
  "\<forall>seg \<in> set (segments_of d). in_buffer seg buffer \<Longrightarrow>
   \<exists>content. generateTemplateDataContent d buffer = Inr content"
  by (cases d) (simp_all add: Segment_Value_in_buffer fencedLinesLoop_in_buffer)

text \<open>
  Claim C2. For a plain-text node whose segment references a byte range of the source
  buffer, the content extractor returns the bytes of that range, followed by a newline
  when the soft-line-break flag is set and by \<open><br/>\<close> and a newline when it is not.
\<close>

theorem text_content:
  assumes "in_buffer seg buffer"
  shows "generateTemplateDataContent (AstText seg softLineBreak) buffer =
         Inr (byte_range seg buffer @ (if softLineBreak then newline else ''<br/>'' @ newline))"
  using assms by (simp add: Segment_Value_in_buffer)

theorem text_content_witness:
  "in_buffer \<lparr>Start = 0, Stop = 5\<rparr> ''hello'' \<and>
   generateTemplateDataContent (AstText \<lparr>Start = 0, Stop = 5\<rparr> True) ''hello''
     = Inr (''hello'' @ [CHR 0x0A]) \<and>
   generateTemplateDataContent (AstText \<lparr>Start = 0, Stop = 5\<rparr> False) ''hello''
     = Inr (''hello<br/>'' @ [CHR 0x0A])"
proof -
  have h: "in_buffer \<lparr>Start = 0, Stop = 5\<rparr> ''hello''"
    by (simp add: in_buffer_def)
  have b: "byte_range \<lparr>Start = 0, Stop = 5\<rparr> ''hello'' = ''hello''"
    by (simp add: byte_range_def upt_rec)
  show ?thesis
    using h text_content [OF h, of True] text_content [OF h, of False]
    by (simp add: b newline_def)
qed

text \<open>
  Claim C3. For a fenced code block whose line segments reference byte ranges of the
  source buffer, the content extractor returns the concatenation of the bytes of the
  lines, in the order of the lines, with nothing between them.
\<close>

theorem fenced_content:
  assumes "\<forall>seg \<in> set lines. in_buffer seg buffer"
  shows "generateTemplateDataContent (AstFencedCodeBlock lines) buffer =
         Inr (concat (map (\<lambda>seg. byte_range seg buffer) lines))"
  using assms by (simp add: fencedLinesLoop_in_buffer)

theorem fenced_content_witness:
  "in_buffer \<lparr>Start = 0, Stop = 4\<rparr> (''foo'' @ [CHR 0x0A] @ ''bar'' @ [CHR 0x0A]) \<and>
   in_buffer \<lparr>Start = 4, Stop = 8\<rparr> (''foo'' @ [CHR 0x0A] @ ''bar'' @ [CHR 0x0A]) \<and>
   generateTemplateDataContent
     (AstFencedCodeBlock [\<lparr>Start = 0, Stop = 4\<rparr>, \<lparr>Start = 4, Stop = 8\<rparr>])
     (''foo'' @ [CHR 0x0A] @ ''bar'' @ [CHR 0x0A])
     = Inr (''foo'' @ [CHR 0x0A] @ ''bar'' @ [CHR 0x0A])"
proof -
  have h: "\<forall>seg \<in> set [\<lparr>Start = 0, Stop = 4\<rparr>, \<lparr>Start = 4, Stop = 8\<rparr>].
             in_buffer seg (''foo'' @ [CHR 0x0A] @ ''bar'' @ [CHR 0x0A])"
    by (simp add: in_buffer_def)
  show ?thesis
    using h fenced_content [OF h]
    by (simp add: byte_range_def upt_rec)
qed

text \<open>
  Claim C8. The content extractor has no error result: for a node of any kind other
  than plain text and fenced code block it returns the empty string, whatever the
  source buffer; and for every node whose segments reference byte ranges of the buffer
  it returns a string.
\<close>

theorem content_other_kinds_empty:
  "(Kind d \<noteq> KindText \<and> Kind d \<noteq> KindFencedCodeBlock \<longrightarrow>
      generateTemplateDataContent d buffer = Inr '''') \<and>
   ((\<forall>seg \<in> set (segments_of d). in_buffer seg buffer) \<longrightarrow>
      (\<exists>content. generateTemplateDataContent d buffer = Inr content))"
proof
  show "Kind d \<noteq> KindText \<and> Kind d \<noteq> KindFencedCodeBlock \<longrightarrow>
          generateTemplateDataContent d buffer = Inr ''''"
    by (cases d) simp_all
  show "(\<forall>seg \<in> set (segments_of d). in_buffer seg buffer) \<longrightarrow>
          (\<exists>content. generateTemplateDataContent d buffer = Inr content)"
    using content_in_buffer by blast
qed

theorem content_other_kinds_empty_witness:
  "Kind (AstHeading 2) \<noteq> KindText \<and> Kind (AstHeading 2) \<noteq> KindFencedCodeBlock \<and>
   generateTemplateDataContent (AstHeading 2) ''# title'' = Inr '''' \<and>
   segments_of (AstText \<lparr>Start = 2, Stop = 7\<rparr> True) = [\<lparr>Start = 2, Stop = 7\<rparr>] \<and>
   in_buffer \<lparr>Start = 2, Stop = 7\<rparr> ''# title'' \<and>
   (\<exists>content. generateTemplateDataContent (AstText \<lparr>Start = 2, Stop = 7\<rparr> True) ''# title''
       = Inr content)"
proof -
  have h: "\<forall>seg \<in> set (segments_of (AstText \<lparr>Start = 2, Stop = 7\<rparr> True)). in_buffer seg ''# title''"
    by (simp add: in_buffer_def)
  show ?thesis
    using h content_other_kinds_empty [of "AstHeading 2" "''# title''"]
      content_other_kinds_empty [of "AstText \<lparr>Start = 2, Stop = 7\<rparr> True" "''# title''"]
    by simp
qed

section \<open>The configuration extractor: proofs\<close>

text \<open>
  Claim C4. The configuration extractor returns, for a heading, the mapping with the one
  entry \<open>level\<close>, the heading's level; for an emphasis, the mapping with the one entry
  \<open>tagType\<close>, which is \<open>em\<close> when the level is 1 and \<open>strong\<close> otherwise; for a
  node of any other kind the empty mapping. It is a function: it has no error result.
\<close>

theorem config_by_kind:
  "generateTemplateDataConfig (AstHeading level) = [''level'' \<mapsto> CInt level] \<and>
   generateTemplateDataConfig (AstEmphasis level) =
     [''tagType'' \<mapsto> CString (if level = 1 then ''em'' else ''strong'')] \<and>
   (Kind d \<noteq> KindHeading \<and> Kind d \<noteq> KindEmphasis \<longrightarrow>
      generateTemplateDataConfig d = Map.empty)"
  by (cases d) simp_all

theorem config_by_kind_witness:
  "generateTemplateDataConfig (AstHeading 3) ''level'' = Some (CInt 3) \<and>
   generateTemplateDataConfig (AstEmphasis 1) ''tagType'' = Some (CString ''em'') \<and>
   generateTemplateDataConfig (AstEmphasis 2) ''tagType'' = Some (CString ''strong'') \<and>
   Kind AstParagraph \<noteq> KindHeading \<and> Kind AstParagraph \<noteq> KindEmphasis \<and>
   generateTemplateDataConfig AstParagraph = Map.empty"
  using config_by_kind [of 3 AstParagraph] config_by_kind [of 1 AstParagraph]
    config_by_kind [of 2 AstParagraph]
  by simp

section \<open>The recursive renderer: proofs\<close>

lemma Init_nonempty: "InitKindTemplateMap E \<noteq> []"
  by (simp add: InitKindTemplateMap_def)

lemma registryInUse_idem: "registryInUse E (registryInUse E ktm) = registryInUse E ktm"
  by (simp add: registryInUse_def Init_nonempty)

lemma gtc_registry: "fst (snd (getTemplateContent E k ktm)) = registryInUse E ktm"
  by (simp add: getTemplateContent_def registryInUse_def Let_def split: option.splits sum.splits)

lemma gtc_inUse: "getTemplateContent E k (registryInUse E ktm) = getTemplateContent E k ktm"
  by (simp add: getTemplateContent_def registryInUse_def Let_def Init_nonempty)

lemma rtts_error_output:
  "renderTemplateToString E tc data = (out, Some err) \<Longrightarrow> out = ''''"
  by (auto simp: renderTemplateToString_def split: sum.splits)

lemma renderSelf_registry: "fst (snd (renderSelf E pm d cc buf ktm)) = registryInUse E ktm"
  using gtc_registry [of E "Kind d" ktm]
  by (auto simp: renderSelf_def split: prod.splits option.splits sum.splits)

lemma renderSelf_inUse: "renderSelf E pm d cc buf (registryInUse E ktm) = renderSelf E pm d cc buf ktm"
  by (simp add: renderSelf_def gtc_inUse)

lemma renderSelf_error_output:
  "renderSelf E pm d cc buf ktm = ((out, Some err), ktm', ev) \<Longrightarrow> out = ''''"
  by (auto simp: renderSelf_def split: prod.splits option.splits sum.splits dest: rtts_error_output)

lemma renderAstNode_unfold:
  "renderAstNode E pm (Node d fc ns) buf ktm =
     (case (case fc of None \<Rightarrow> (('''', None), ktm, [])
                     | Some c \<Rightarrow> renderAstNode E pm c buf ktm) of
        ((cc, Some err), k1, ev1) \<Rightarrow> (('''', Some err), k1, ev1)
      | ((cc, None), k1, ev1) \<Rightarrow>
          (case renderSelf E pm d cc buf k1 of
             ((out, Some err), k2, ev2) \<Rightarrow> ((out, Some err), k2, ev1 @ ev2)
           | ((out, None), k2, ev2) \<Rightarrow>
               (case ns of
                  None \<Rightarrow> ((out, None), k2, ev1 @ ev2)
                | Some s \<Rightarrow>
                    (case renderAstNode E pm s buf k2 of
                       ((sc, Some err), k3, ev3) \<Rightarrow> (('''', Some err), k3, ev1 @ ev2 @ ev3)
                     | ((sc, None), k3, ev3) \<Rightarrow>
                         ((out @ newline @ sc, None), k3, ev1 @ ev2 @ ev3)))))"
  by (cases fc; cases ns)
     (auto simp: renderSelf_def split: prod.splits option.splits sum.splits)

declare renderAstNode.simps [simp del]

lemma renderSelf_registry':
  "renderSelf E pm d cc buf ktm = (r, k', ev) \<Longrightarrow> k' = registryInUse E ktm"
  using renderSelf_registry [of E pm d cc buf ktm] by simp

lemma render_registry:
  "renderAstNode E pm n buf ktm = (r, k', ev) \<Longrightarrow> k' = registryInUse E ktm"
proof (induction n arbitrary: ktm r k' ev)
  case (Node d fc ns)
  have ch: "\<And>c r k ev. fc = Some c \<Longrightarrow> renderAstNode E pm c buf ktm = (r, k, ev) \<Longrightarrow>
              k = registryInUse E ktm"
    using Node.IH(1) by simp
  have sb: "\<And>s r k ev k2. ns = Some s \<Longrightarrow> renderAstNode E pm s buf k2 = (r, k, ev) \<Longrightarrow>
              k = registryInUse E k2"
    using Node.IH(2) by simp
  show ?case
    using Node.prems
    apply (subst (asm) renderAstNode_unfold)
    apply (cases fc; cases ns)
    apply (auto split: prod.splits option.splits
                dest!: ch sb renderSelf_registry' simp: registryInUse_idem)
    done
qed

lemma render_inUse:
  "renderAstNode E pm n buf (registryInUse E ktm) = renderAstNode E pm n buf ktm"
proof (induction n arbitrary: ktm)
  case (Node d fc ns)
  show ?case
  proof (cases fc)
    case None
    then show ?thesis
      by (simp add: renderAstNode_unfold renderSelf_inUse)
  next
    case (Some c)
    then show ?thesis
      using Node.IH(1) [of c ktm]
      by (simp add: renderAstNode_unfold)
  qed
qed


lemma sibling_unfold:
  "renderAstNode E pm (Node d fc (Some s)) buf ktm =
     (case renderAstNode E pm (Node d fc None) buf ktm of
        ((out, Some err), k, ev) \<Rightarrow> ((out, Some err), k, ev)
      | ((out, None), k, ev) \<Rightarrow>
          (case renderAstNode E pm s buf k of
             ((sc, Some err), k3, ev3) \<Rightarrow> (('''', Some err), k3, ev @ ev3)
           | ((sc, None), k3, ev3) \<Rightarrow> ((out @ newline @ sc, None), k3, ev @ ev3)))"
  by (cases fc)
     (auto simp: renderAstNode_unfold split: prod.splits option.splits
           dest: renderSelf_error_output)

lemma joinNewline_Cons:
  "joinNewline (f # fs) = (if fs = [] then f else f @ newline @ joinNewline fs)"
  by (cases fs) simp_all

lemma siblings_nonempty: "siblings n \<noteq> []"
  by (cases n) simp

lemma own_fragment_alone:
  "fst (renderAstNode E pm (Node d fc None) buf ktm) = ownFragment E pm (Node d fc ns) buf ktm"
proof (cases fc)
  case None
  then show ?thesis
    by (simp add: renderAstNode_unfold ownFragment_def split: prod.splits option.splits)
next
  case (Some c)
  obtain cc ce k1 ev1 where c: "renderAstNode E pm c buf ktm = ((cc, ce), k1, ev1)"
    by (metis prod.exhaust)
  have "k1 = registryInUse E ktm"
    using c by (rule render_registry)
  then have self: "renderSelf E pm d cc buf k1 = renderSelf E pm d cc buf ktm"
    by (simp add: renderSelf_inUse)
  show ?thesis
    using Some c self
    by (simp add: renderAstNode_unfold ownFragment_def split: prod.splits option.splits)
qed

lemma renderSelf_instantiates:
  assumes "map_of (registryInUse E ktm) (Kind d) = Some p" and "ReadFile E p = Inr tc"
    and "Parse E tc = Inr t" and "generateTemplateDataContent d buf = Inr content"
  shows "fst (renderSelf E pm d cc buf ktm) =
           (case Execute E t \<lparr>Meta = pm, Config = generateTemplateDataConfig d,
                               Content = content, Children = cc\<rparr> of
              Inl err \<Rightarrow> ('''', Some (TemplateExecError err))
            | Inr out \<Rightarrow> (out, None))"
proof -
  have "getTemplateContent E (Kind d) ktm = ((tc, None), registryInUse E ktm, [EvReadFile p])"
    using assms(1,2) by (simp add: getTemplateContent_def registryInUse_def Let_def)
  then show ?thesis
    using assms(3,4)
    by (simp add: renderSelf_def renderTemplateToString_def split: sum.splits)
qed

lemma chain_Some:
  assumes own: "renderAstNode E pm (Node d fc None) buf ktm = ((out, e), k, ev)"
  shows "fst (renderAstNode E pm (Node d fc (Some s)) buf ktm) =
     (case e of
        Some err \<Rightarrow> (out, Some err)
      | None \<Rightarrow>
         (case fst (renderAstNode E pm s buf ktm) of
            (sc, Some err) \<Rightarrow> ('''', Some err)
          | (sc, None) \<Rightarrow> (out @ newline @ sc, None)))"
proof -
  have k: "k = registryInUse E ktm"
    using own by (rule render_registry)
  have "renderAstNode E pm s buf k = renderAstNode E pm s buf ktm"
    unfolding k by (rule render_inUse)
  then show ?thesis
    using own by (simp add: sibling_unfold split: prod.splits option.splits)
qed

text \<open>
  Claim C1. The renderer succeeds on a node exactly when the fragment of every node of
  its sibling chain renders, and then the string it returns is the fragments of the
  siblings, each once and in the order of the chain, with one newline between two
  consecutive fragments. A node with no next sibling returns its own fragment, with no
  separator after it; when it has no children either, that is the result of the node's
  own template step with empty children. The fragment is the one of the specification:
  the node's template, read from the file of its kind and parsed, executed on the page
  metadata, the node's configuration, its content and the rendering of its children.
\<close>

theorem sibling_chain_order:
  "(snd (fst (renderAstNode E pm n buf ktm)) = None \<longleftrightarrow>
      (\<forall>m \<in> set (siblings n). snd (ownFragment E pm m buf ktm) = None)) \<and>
   (snd (fst (renderAstNode E pm n buf ktm)) = None \<longrightarrow>
      fst (fst (renderAstNode E pm n buf ktm)) =
        joinNewline (map (\<lambda>m. fst (ownFragment E pm m buf ktm)) (siblings n))) \<and>
   (NextSibling n = None \<longrightarrow>
      fst (renderAstNode E pm n buf ktm) = ownFragment E pm n buf ktm) \<and>
   (FirstChild n = None \<and> NextSibling n = None \<longrightarrow>
      renderAstNode E pm n buf ktm = renderSelf E pm (Data n) '''' buf ktm) \<and>
   (\<forall>p tc t content childOutput.
      map_of (registryInUse E ktm) (Kind (Data n)) = Some p \<and> ReadFile E p = Inr tc \<and>
      Parse E tc = Inr t \<and> generateTemplateDataContent (Data n) buf = Inr content \<longrightarrow>
      fst (renderSelf E pm (Data n) childOutput buf ktm) =
        (case Execute E t \<lparr>Meta = pm, Config = generateTemplateDataConfig (Data n),
                            Content = content, Children = childOutput\<rparr> of
           Inl err \<Rightarrow> ('''', Some (TemplateExecError err))
         | Inr out \<Rightarrow> (out, None)))"
proof (induction n)
  case (Node d fc ns)
  have leaf: "FirstChild (Node d fc ns) = None \<and> NextSibling (Node d fc ns) = None \<longrightarrow>
      renderAstNode E pm (Node d fc ns) buf ktm = renderSelf E pm (Data (Node d fc ns)) '''' buf ktm"
    by (auto simp: renderAstNode_unfold split: prod.splits option.splits)
  have inst: "\<forall>p tc t content childOutput.
      map_of (registryInUse E ktm) (Kind (Data (Node d fc ns))) = Some p \<and> ReadFile E p = Inr tc \<and>
      Parse E tc = Inr t \<and> generateTemplateDataContent (Data (Node d fc ns)) buf = Inr content \<longrightarrow>
      fst (renderSelf E pm (Data (Node d fc ns)) childOutput buf ktm) =
        (case Execute E t \<lparr>Meta = pm, Config = generateTemplateDataConfig (Data (Node d fc ns)),
                            Content = content, Children = childOutput\<rparr> of
           Inl err \<Rightarrow> ('''', Some (TemplateExecError err))
         | Inr out \<Rightarrow> (out, None))"
    by (intro allI impI, elim conjE, rule renderSelf_instantiates; assumption)
  show ?case
  proof (cases ns)
    case None
    then show ?thesis
      using leaf inst own_fragment_alone [of E pm d fc buf ktm ns] by simp
  next
    case (Some s)
    obtain out e k ev where own: "renderAstNode E pm (Node d fc None) buf ktm = ((out, e), k, ev)"
      by (metis prod.exhaust)
    obtain sc se where sib: "fst (renderAstNode E pm s buf ktm) = (sc, se)"
      by (metis prod.exhaust)
    have frag: "ownFragment E pm (Node d fc ns) buf ktm = (out, e)"
      using own own_fragment_alone [of E pm d fc buf ktm ns] by simp
    have IH: "(se = None \<longleftrightarrow> (\<forall>m \<in> set (siblings s). snd (ownFragment E pm m buf ktm) = None)) \<and>
              (se = None \<longrightarrow> sc = joinNewline (map (\<lambda>m. fst (ownFragment E pm m buf ktm)) (siblings s)))"
      using Node.IH(2) [of s] Some sib by simp
    have whole: "fst (renderAstNode E pm (Node d fc ns) buf ktm) =
       (case e of Some err \<Rightarrow> (out, Some err)
        | None \<Rightarrow> (case se of Some err \<Rightarrow> ('''', Some err) | None \<Rightarrow> (out @ newline @ sc, None)))"
      using chain_Some [OF own, of s] Some sib by (simp split: option.splits)
    show ?thesis
    proof (cases e)
      case None
      then show ?thesis
        using whole IH frag Some inst
        by (cases se) (simp_all add: joinNewline_Cons siblings_nonempty)
    next
      case (Some err)
      then show ?thesis
        using whole frag \<open>ns = Some s\<close> inst by simp
    qed
  qed
qed

theorem sibling_chain_order_witness:
  "snd (fst (renderAstNode demoEnv demoPageMeta demoChain ''abc'' [])) = None \<and>
   map (\<lambda>m. fst (ownFragment demoEnv demoPageMeta m ''abc'' [])) (siblings demoChain) =
     [''<>'', ''<<bc'' @ [CHR 0x0A] @ ''>>'', ''<>''] \<and>
   fst (fst (renderAstNode demoEnv demoPageMeta demoChain ''abc'' [])) =
     ''<>'' @ [CHR 0x0A] @ ''<<bc'' @ [CHR 0x0A] @ ''>>'' @ [CHR 0x0A] @ ''<>'' \<and>
   NextSibling demoDocument = None \<and>
   ownFragment demoEnv demoPageMeta demoDocument ''abc'' [] =
     (''<<>'' @ [CHR 0x0A] @ ''<>>'', None) \<and>
   fst (renderAstNode demoEnv demoPageMeta demoDocument ''abc'' []) =
     (''<<>'' @ [CHR 0x0A] @ ''<>>'', None) \<and>
   NextSibling (Node AstThematicBreak None None) = None \<and>
   FirstChild (Node AstThematicBreak None None) = None \<and>
   fst (renderAstNode demoEnv demoPageMeta (Node AstThematicBreak None None) ''abc'' []) =
     (''<>'', None)"
proof -
  have ok: "snd (fst (renderAstNode demoEnv demoPageMeta demoChain ''abc'' [])) = None"
    by code_simp
  have frags:
    "map (\<lambda>m. fst (ownFragment demoEnv demoPageMeta m ''abc'' [])) (siblings demoChain) =
       [''<>'', ''<<bc'' @ [CHR 0x0A] @ ''>>'', ''<>'']"
    by code_simp
  have doc: "ownFragment demoEnv demoPageMeta demoDocument ''abc'' [] =
     (''<<>'' @ [CHR 0x0A] @ ''<>>'', None)"
    by code_simp
  have nodoc: "NextSibling demoDocument = None"
    by (simp add: demoDocument_def)
  have self: "fst (renderSelf demoEnv demoPageMeta AstThematicBreak '''' ''abc'' []) = (''<>'', None)"
    by code_simp
  show ?thesis
    using sibling_chain_order [of demoEnv demoPageMeta demoChain "''abc''" "[]"]
      sibling_chain_order [of demoEnv demoPageMeta demoDocument "''abc''" "[]"]
      sibling_chain_order [of demoEnv demoPageMeta "Node AstThematicBreak None None" "''abc''" "[]"]
      ok frags doc nodoc self
    by (simp add: newline_def)
qed

section \<open>The page-assembly entry point: proofs\<close>

lemma validate_cases:
  "(\<forall>f. find (\<lambda>f. pageMetadata f = None) requiredFields = Some f \<longrightarrow>
        RenderAst_validate pageMetadata = Inl (MissingField f)) \<and>
   (find (\<lambda>f. pageMetadata f = None) requiredFields = None \<longrightarrow>
      (\<exists>vt vd vs vp.
          pageMetadata ''title'' = Some vt \<and> pageMetadata ''description'' = Some vd \<and>
          pageMetadata ''slug'' = Some vs \<and> pageMetadata ''path'' = Some vp \<and>
          RenderAst_validate pageMetadata =
            (if HasPrefix (Sprintf_s vp) ''/''
             then Inr (\<lparr>Title = Sprintf_s vt, Description = Sprintf_s vd, Slug = Sprintf_s vs,
                        Path = DocumentTemplatePath\<rparr>, Sprintf_s vp)
             else Inl BadPagePath)))"
  by (auto simp: RenderAst_validate_def requiredFields_def Let_def split: option.splits)

lemma validate_Inl_RenderAst:
  "RenderAst_validate pageMetadata = Inl e \<Longrightarrow>
   RenderAst E pageMetadata n buf ktm = (Some e, ktm, [])"
  by (simp add: RenderAst_def)

text \<open>
  Claim C5. When the metadata mapping lacks one of the keys \<open>title\<close>, \<open>description\<close>,
  \<open>slug\<close>, \<open>path\<close>, the entry point returns the error that names a missing key
  (the first missing one in that order, so the key itself when it is the only one
  missing); it returns the registry as it was, not even filled, and has made no call
  to the file system: no template was read, no directory made and no file written.
\<close>

theorem missing_field_rejected:
  assumes "f \<in> set requiredFields" and "pageMetadata f = None"
  shows "\<exists>g. find (\<lambda>g. pageMetadata g = None) requiredFields = Some g \<and>
             RenderAst E pageMetadata n buf ktm = (Some (MissingField g), ktm, []) \<and>
             ((\<forall>h \<in> set requiredFields. h \<noteq> f \<longrightarrow> pageMetadata h \<noteq> None) \<longrightarrow> g = f)"
proof -
  from assms obtain g where g: "find (\<lambda>g. pageMetadata g = None) requiredFields = Some g"
    by (cases "find (\<lambda>g. pageMetadata g = None) requiredFields") (auto simp: find_None_iff)
  then have miss: "pageMetadata g = None" and req: "g \<in> set requiredFields"
    by (auto simp: find_Some_iff)
  have "RenderAst_validate pageMetadata = Inl (MissingField g)"
    using g validate_cases by blast
  then have "RenderAst E pageMetadata n buf ktm = (Some (MissingField g), ktm, [])"
    by (rule validate_Inl_RenderAst)
  moreover have "(\<forall>h \<in> set requiredFields. h \<noteq> f \<longrightarrow> pageMetadata h \<noteq> None) \<longrightarrow> g = f"
    using miss req by blast
  ultimately show ?thesis using g by blast
qed

theorem missing_field_rejected_witness:
  "''slug'' \<in> set requiredFields \<and> (demoMeta(''slug'' := None)) ''slug'' = None \<and>
   RenderAst demoEnv (demoMeta(''slug'' := None)) demoChain ''abc'' [] =
     (Some (MissingField ''slug''), [], [])"
proof -
  have f: "find (\<lambda>g. (demoMeta(''slug'' := None)) g = None) requiredFields = Some ''slug''"
    by (simp add: demoMeta_def requiredFields_def)
  show ?thesis
    using missing_field_rejected [of "''slug''" "demoMeta(''slug'' := None)" demoEnv demoChain "''abc''" "[]"] f
    by (simp add: requiredFields_def)
qed

lemma persist_writes:
  "RenderAst_persist E pagePath output = (err, evs) \<Longrightarrow>
   (writes evs = [] \<or> writes evs = [(path_Join [''build'', pagePath, ''/index.html''], output)]) \<and>
   (err = None \<longrightarrow> writes evs = [(path_Join [''build'', pagePath, ''/index.html''], output)]) \<and>
   ((StatIsNotExist E (path_Join [''build'', pagePath]) \<longrightarrow>
       MkdirAll E (path_Join [''build'', pagePath]) = None) \<longrightarrow>
      writes evs = [(path_Join [''build'', pagePath, ''/index.html''], output)] \<and>
      err = map_option OSError (WriteFile E (path_Join [''build'', pagePath, ''/index.html'']) output))"
  by (auto simp: RenderAst_persist_def writes_def Let_def split: if_splits option.splits)

lemma gtc_events:
  "getTemplateContent E k ktm = (r, k', ev) \<Longrightarrow> writes ev = []"
  by (auto simp: getTemplateContent_def writes_def Let_def split: option.splits sum.splits)

lemma renderSelf_events:
  "renderSelf E pm d cc buf ktm = (r, k', ev) \<Longrightarrow> writes ev = []"
  by (auto simp: renderSelf_def split: prod.splits option.splits sum.splits dest: gtc_events)

lemma writes_append: "writes (xs @ ys) = writes xs @ writes ys"
  by (simp add: writes_def)

lemma render_events:
  "renderAstNode E pm n buf ktm = (r, k', ev) \<Longrightarrow> writes ev = []"
proof (induction n arbitrary: ktm r k' ev)
  case (Node d fc ns)
  have ch: "\<And>c r k ev. fc = Some c \<Longrightarrow> renderAstNode E pm c buf ktm = (r, k, ev) \<Longrightarrow>
              writes ev = []"
    using Node.IH(1) by simp
  have sb: "\<And>s r k ev k2. ns = Some s \<Longrightarrow> renderAstNode E pm s buf k2 = (r, k, ev) \<Longrightarrow>
              writes ev = []"
    using Node.IH(2) by simp
  show ?case
    using Node.prems
    apply (subst (asm) renderAstNode_unfold)
    apply (cases fc; cases ns)
    apply (auto split: prod.splits option.splits
                dest!: ch sb renderSelf_events simp: writes_append)
    done
qed

lemma validate_Inr:
  "RenderAst_validate pageMetadata = Inr (pm, pagePath) \<Longrightarrow>
   \<exists>vt vd vs vp.
      pageMetadata ''title'' = Some vt \<and> pageMetadata ''description'' = Some vd \<and>
      pageMetadata ''slug'' = Some vs \<and> pageMetadata ''path'' = Some vp \<and>
      Sprintf_s vp = pagePath \<and> HasPrefix pagePath ''/'' \<and>
      pm = \<lparr>Title = Sprintf_s vt, Description = Sprintf_s vd, Slug = Sprintf_s vs,
            Path = DocumentTemplatePath\<rparr>"
  by (auto simp: RenderAst_validate_def Let_def split: option.splits if_splits)

lemma path_not_prefixed:
  "pageMetadata ''path'' = Some vp \<Longrightarrow> \<not> HasPrefix (Sprintf_s vp) ''/'' \<Longrightarrow>
   \<exists>e. isValidationError e \<and> RenderAst_validate pageMetadata = Inl e"
  by (auto simp: RenderAst_validate_def isValidationError_def requiredFields_def Let_def
           split: option.splits)

lemma RenderAst_rendered:
  assumes v: "RenderAst_validate pageMetadata = Inr (pm, pagePath)"
    and r: "renderAstNode E pm n buf ktm = ((output, None), k, ev)"
    and p: "RenderAst_persist E pagePath output = (err, ev2)"
  shows "RenderAst E pageMetadata n buf ktm = (err, k, ev @ ev2)"
  using v r p by (simp add: RenderAst_def)

text \<open>
  Claim C6. When the formatted value of \<open>path\<close> does not start with a slash, the
  entry point returns a validation error and has made no call to the file system. When
  validation passes and the renderer returns an output, the path starts with a slash
  and, if the entry point succeeds or the directory exists or can be made, exactly one
  file is written: the output, at the join of \<open>build\<close>, the page path and
  \<open>/index.html\<close>. For the path \<open>/about\<close> that is \<open>build/about/index.html\<close>.
\<close>

theorem page_path_validation:
  "(pageMetadata ''path'' = Some vp \<and> \<not> HasPrefix (Sprintf_s vp) ''/'' \<longrightarrow>
      (\<exists>e. isValidationError e \<and> RenderAst E pageMetadata n buf ktm = (Some e, ktm, []))) \<and>
   (RenderAst_validate pageMetadata = Inr (pm, pagePath) \<and>
    fst (renderAstNode E pm n buf ktm) = (output, None) \<longrightarrow>
      (\<exists>v. pageMetadata ''path'' = Some v \<and> Sprintf_s v = pagePath) \<and>
      HasPrefix pagePath ''/'' \<and>
      (fst (RenderAst E pageMetadata n buf ktm) = None \<or>
       (StatIsNotExist E (path_Join [''build'', pagePath]) \<longrightarrow>
          MkdirAll E (path_Join [''build'', pagePath]) = None) \<longrightarrow>
         writes (snd (snd (RenderAst E pageMetadata n buf ktm))) =
           [(path_Join [''build'', pagePath, ''/index.html''], output)])) \<and>
   \<not> HasPrefix ''about'' ''/'' \<and> HasPrefix ''/about'' ''/'' \<and>
   path_Join [''build'', ''/about'', ''/index.html''] = ''build/about/index.html''"
proof (intro conjI impI)
  assume "pageMetadata ''path'' = Some vp \<and> \<not> HasPrefix (Sprintf_s vp) ''/''"
  then obtain e where "isValidationError e" "RenderAst_validate pageMetadata = Inl e"
    using path_not_prefixed by blast
  then show "\<exists>e. isValidationError e \<and> RenderAst E pageMetadata n buf ktm = (Some e, ktm, [])"
    using validate_Inl_RenderAst by blast
next
  assume a: "RenderAst_validate pageMetadata = Inr (pm, pagePath) \<and>
             fst (renderAstNode E pm n buf ktm) = (output, None)"
  then show "\<exists>v. pageMetadata ''path'' = Some v \<and> Sprintf_s v = pagePath"
    using validate_Inr by blast
next
  assume a: "RenderAst_validate pageMetadata = Inr (pm, pagePath) \<and>
             fst (renderAstNode E pm n buf ktm) = (output, None)"
  then show "HasPrefix pagePath ''/''"
    using validate_Inr by blast
next
  assume a: "RenderAst_validate pageMetadata = Inr (pm, pagePath) \<and>
             fst (renderAstNode E pm n buf ktm) = (output, None)"
  assume b: "fst (RenderAst E pageMetadata n buf ktm) = None \<or>
       (StatIsNotExist E (path_Join [''build'', pagePath]) \<longrightarrow>
          MkdirAll E (path_Join [''build'', pagePath]) = None)"
  obtain k ev where r: "renderAstNode E pm n buf ktm = ((output, None), k, ev)"
    using a by (metis fst_conv prod.exhaust)
  obtain err ev2 where p: "RenderAst_persist E pagePath output = (err, ev2)"
    by (metis prod.exhaust)
  have whole: "RenderAst E pageMetadata n buf ktm = (err, k, ev @ ev2)"
    using a r p RenderAst_rendered by blast
  have "writes ev = []"
    using r by (rule render_events)
  moreover have "writes ev2 = [(path_Join [''build'', pagePath, ''/index.html''], output)]"
    using persist_writes [OF p] b whole by auto
  ultimately show "writes (snd (snd (RenderAst E pageMetadata n buf ktm))) =
           [(path_Join [''build'', pagePath, ''/index.html''], output)]"
    using whole by (simp add: writes_append)
next
  show "\<not> HasPrefix ''about'' ''/''" by (simp add: HasPrefix_def)
  show "HasPrefix ''/about'' ''/''" by (simp add: HasPrefix_def)
  show "path_Join [''build'', ''/about'', ''/index.html''] = ''build/about/index.html''"
    by code_simp
qed

theorem page_path_validation_witness:
  "(demoMeta(''path'' \<mapsto> VString ''about'')) ''path'' = Some (VString ''about'') \<and>
   \<not> HasPrefix (Sprintf_s (VString ''about'')) ''/'' \<and>
   RenderAst demoEnv (demoMeta(''path'' \<mapsto> VString ''about'')) demoChain ''abc'' [] =
     (Some BadPagePath, [], []) \<and>
   RenderAst_validate demoMeta = Inr (demoPageMeta, ''/about'') \<and>
   fst (renderAstNode demoEnv demoPageMeta demoChain ''abc'' []) =
     (''<>'' @ [CHR 0x0A] @ ''<<bc'' @ [CHR 0x0A] @ ''>>'' @ [CHR 0x0A] @ ''<>'', None) \<and>
   fst (RenderAst demoEnv demoMeta demoChain ''abc'' []) = None \<and>
   writes (snd (snd (RenderAst demoEnv demoMeta demoChain ''abc'' []))) =
     [(''build/about/index.html'',
       ''<>'' @ [CHR 0x0A] @ ''<<bc'' @ [CHR 0x0A] @ ''>>'' @ [CHR 0x0A] @ ''<>'')]"
proof -
  have bad: "RenderAst demoEnv (demoMeta(''path'' \<mapsto> VString ''about'')) demoChain ''abc'' [] =
     (Some BadPagePath, [], [])"
    by (simp add: RenderAst_def RenderAst_validate_def demoMeta_def HasPrefix_def)
  have v: "RenderAst_validate demoMeta = Inr (demoPageMeta, ''/about'')"
    by (simp add: RenderAst_validate_def demoMeta_def demoPageMeta_def HasPrefix_def
          DocumentTemplatePath_def showInt_def showNat.simps)
  have r: "fst (renderAstNode demoEnv demoPageMeta demoChain ''abc'' []) =
     (''<>'' @ [CHR 0x0A] @ ''<<bc'' @ [CHR 0x0A] @ ''>>'' @ [CHR 0x0A] @ ''<>'', None)"
    by code_simp
  have ok: "fst (RenderAst demoEnv demoMeta demoChain ''abc'' []) = None"
    by code_simp
  have j: "path_Join [''build'', ''/about'', ''/index.html''] = ''build/about/index.html''"
    by code_simp
  show ?thesis
    using page_path_validation [of demoMeta vp demoEnv demoChain "''abc''" "[]" demoPageMeta
        "''/about''" "''<>'' @ [CHR 0x0A] @ ''<<bc'' @ [CHR 0x0A] @ ''>>'' @ [CHR 0x0A] @ ''<>''"]
      page_path_validation [of "demoMeta(''path'' \<mapsto> VString ''about'')" "VString ''about''"
        demoEnv demoChain "''abc''" "[]"]
      bad v r ok j
    by (simp add: demoMeta_def)
qed

text \<open>
  Claim C9. When the four keys are present and the formatted path starts with a slash,
  the entry point runs the recursive renderer with the page metadata whose title,
  description and slug are the formatted metadata values and whose path is the constant
  \<open>DocumentTemplatePath\<close>, the location of the document template, which differs from
  the page's path.
\<close>

theorem page_meta_passed:
  assumes "pageMetadata ''title'' = Some vt" and "pageMetadata ''description'' = Some vd"
    and "pageMetadata ''slug'' = Some vs" and "pageMetadata ''path'' = Some vp"
    and "HasPrefix (Sprintf_s vp) ''/''"
  shows "RenderAst_validate pageMetadata =
           Inr (\<lparr>Title = Sprintf_s vt, Description = Sprintf_s vd, Slug = Sprintf_s vs,
                 Path = DocumentTemplatePath\<rparr>, Sprintf_s vp) \<and>
         RenderAst E pageMetadata n buf ktm =
           (case renderAstNode E
                   \<lparr>Title = Sprintf_s vt, Description = Sprintf_s vd, Slug = Sprintf_s vs,
                    Path = DocumentTemplatePath\<rparr> n buf ktm of
              ((output, Some err), k, ev) \<Rightarrow> (Some err, k, ev)
            | ((output, None), k, ev) \<Rightarrow>
                (case RenderAst_persist E (Sprintf_s vp) output of
                   (err, ev2) \<Rightarrow> (err, k, ev @ ev2))) \<and>
         DocumentTemplatePath = ''../templates/block/document.tmpl.html'' \<and>
         DocumentTemplatePath \<noteq> Sprintf_s vp"
proof -
  have v: "RenderAst_validate pageMetadata =
           Inr (\<lparr>Title = Sprintf_s vt, Description = Sprintf_s vd, Slug = Sprintf_s vs,
                 Path = DocumentTemplatePath\<rparr>, Sprintf_s vp)"
    using assms by (simp add: RenderAst_validate_def)
  have "\<not> HasPrefix DocumentTemplatePath ''/''"
    by (simp add: DocumentTemplatePath_def HasPrefix_def)
  then have ne: "DocumentTemplatePath \<noteq> Sprintf_s vp"
    using assms(5) by auto
  show ?thesis
    using v ne
    by (simp add: RenderAst_def DocumentTemplatePath_def split: prod.splits option.splits)
qed

theorem page_meta_passed_witness:
  "demoMeta ''title'' = Some (VString ''About'') \<and> demoMeta ''description'' = Some (VInt 7) \<and>
   demoMeta ''slug'' = Some (VBool True) \<and> demoMeta ''path'' = Some (VString ''/about'') \<and>
   HasPrefix (Sprintf_s (VString ''/about'')) ''/'' \<and>
   RenderAst_validate demoMeta =
     Inr (\<lparr>Title = ''About'', Description = ''%!s(int=7)'', Slug = ''%!s(bool=true)'',
           Path = ''../templates/block/document.tmpl.html''\<rparr>, ''/about'')"
proof -
  have m: "demoMeta ''title'' = Some (VString ''About'')" "demoMeta ''description'' = Some (VInt 7)"
    "demoMeta ''slug'' = Some (VBool True)" "demoMeta ''path'' = Some (VString ''/about'')"
    by (simp_all add: demoMeta_def)
  have h: "HasPrefix (Sprintf_s (VString ''/about'')) ''/''"
    by (simp add: HasPrefix_def)
  show ?thesis
    using m h page_meta_passed [OF m h, of demoEnv demoChain "''abc''" "[]"]
    by (simp add: showInt_def showNat.simps)
qed

text \<open>
  Claim C10. Validation tests the presence of the keys in the order \<open>title\<close>,
  \<open>description\<close>, \<open>slug\<close>, \<open>path\<close>: the error names the first missing one. When
  none is missing the only other test is the slash at the start of the formatted path.
  The values are not tested for their type: a mapping with the four keys, of values of
  any type, and a path string that starts with a slash passes.
\<close>

theorem validation_order:
  "(\<forall>f. find (\<lambda>f. pageMetadata f = None) requiredFields = Some f \<longrightarrow>
        RenderAst E pageMetadata n buf ktm = (Some (MissingField f), ktm, [])) \<and>
   (find (\<lambda>f. pageMetadata f = None) requiredFields = None \<longrightarrow>
      (\<exists>vt vd vs vp.
          pageMetadata ''title'' = Some vt \<and> pageMetadata ''description'' = Some vd \<and>
          pageMetadata ''slug'' = Some vs \<and> pageMetadata ''path'' = Some vp \<and>
          (if HasPrefix (Sprintf_s vp) ''/''
           then RenderAst_validate pageMetadata =
                  Inr (\<lparr>Title = Sprintf_s vt, Description = Sprintf_s vd, Slug = Sprintf_s vs,
                        Path = DocumentTemplatePath\<rparr>, Sprintf_s vp)
           else RenderAst E pageMetadata n buf ktm = (Some BadPagePath, ktm, [])))) \<and>
   requiredFields = [''title'', ''description'', ''slug'', ''path''] \<and>
   (\<forall>vt vd vs s. \<exists>pm.
      RenderAst_validate
        [''title'' \<mapsto> vt, ''description'' \<mapsto> vd, ''slug'' \<mapsto> vs, ''path'' \<mapsto> VString (''/'' @ s)] =
      Inr (pm, ''/'' @ s))"
proof (intro conjI allI impI)
  fix f assume "find (\<lambda>f. pageMetadata f = None) requiredFields = Some f"
  then have "RenderAst_validate pageMetadata = Inl (MissingField f)"
    using validate_cases by blast
  then show "RenderAst E pageMetadata n buf ktm = (Some (MissingField f), ktm, [])"
    by (rule validate_Inl_RenderAst)
next
  assume "find (\<lambda>f. pageMetadata f = None) requiredFields = None"
  then obtain vt vd vs vp where
    p: "pageMetadata ''title'' = Some vt" "pageMetadata ''description'' = Some vd"
       "pageMetadata ''slug'' = Some vs" "pageMetadata ''path'' = Some vp" and
    v: "RenderAst_validate pageMetadata =
            (if HasPrefix (Sprintf_s vp) ''/''
             then Inr (\<lparr>Title = Sprintf_s vt, Description = Sprintf_s vd, Slug = Sprintf_s vs,
                        Path = DocumentTemplatePath\<rparr>, Sprintf_s vp)
             else Inl BadPagePath)"
    using validate_cases by blast
  have "if HasPrefix (Sprintf_s vp) ''/''
           then RenderAst_validate pageMetadata =
                  Inr (\<lparr>Title = Sprintf_s vt, Description = Sprintf_s vd, Slug = Sprintf_s vs,
                        Path = DocumentTemplatePath\<rparr>, Sprintf_s vp)
           else RenderAst E pageMetadata n buf ktm = (Some BadPagePath, ktm, [])"
    using v by (simp add: validate_Inl_RenderAst)
  then show "\<exists>vt vd vs vp.
          pageMetadata ''title'' = Some vt \<and> pageMetadata ''description'' = Some vd \<and>
          pageMetadata ''slug'' = Some vs \<and> pageMetadata ''path'' = Some vp \<and>
          (if HasPrefix (Sprintf_s vp) ''/''
           then RenderAst_validate pageMetadata =
                  Inr (\<lparr>Title = Sprintf_s vt, Description = Sprintf_s vd, Slug = Sprintf_s vs,
                        Path = DocumentTemplatePath\<rparr>, Sprintf_s vp)
           else RenderAst E pageMetadata n buf ktm = (Some BadPagePath, ktm, []))"
    using p by blast
next
  show "requiredFields = [''title'', ''description'', ''slug'', ''path'']"
    by (simp add: requiredFields_def)
next
  fix vt vd vs s
  show "\<exists>pm. RenderAst_validate
        [''title'' \<mapsto> vt, ''description'' \<mapsto> vd, ''slug'' \<mapsto> vs, ''path'' \<mapsto> VString (''/'' @ s)] =
      Inr (pm, ''/'' @ s)"
    by (simp add: RenderAst_validate_def HasPrefix_def)
qed

theorem validation_order_witness:
  "find (\<lambda>f. (demoMeta(''description'' := None, ''path'' := None)) f = None) requiredFields
     = Some ''description'' \<and>
   RenderAst demoEnv (demoMeta(''description'' := None, ''path'' := None)) demoChain ''abc'' [] =
     (Some (MissingField ''description''), [], []) \<and>
   find (\<lambda>f. demoMeta f = None) requiredFields = None \<and>
   RenderAst_validate demoMeta = Inr (demoPageMeta, ''/about'')"
proof -
  have f: "find (\<lambda>f. (demoMeta(''description'' := None, ''path'' := None)) f = None) requiredFields
     = Some ''description''"
    by (simp add: demoMeta_def requiredFields_def)
  have g: "find (\<lambda>f. demoMeta f = None) requiredFields = None"
    by (simp add: demoMeta_def requiredFields_def)
  have v: "RenderAst_validate demoMeta = Inr (demoPageMeta, ''/about'')"
    by (simp add: RenderAst_validate_def demoMeta_def demoPageMeta_def HasPrefix_def
          DocumentTemplatePath_def showInt_def showNat.simps)
  show ?thesis
    using f g v
      validation_order [of "demoMeta(''description'' := None, ''path'' := None)" demoEnv demoChain
        "''abc''" "[]"]
      validation_order [of demoMeta demoEnv demoChain "''abc''" "[]"]
    by simp
qed

section \<open>Kinds without a template: proofs\<close>





















end
